theory Spec2Isabelle
  imports Main "HOL-Library.Sublist" "HOL-Library.Word"
begin

section \<open>Python values used by \<open>scripts/query_mls.py\<close>\<close>

text \<open>
  A Python \<open>str\<close> is a sequence of Unicode code points (each at most \<open>0x10FFFF\<close>; a
  lone surrogate is allowed, and \<open>json.load\<close> returns one for an escape such as
  \<open>\ud800\<close>). It is modelled as the list of its code points. \<open>ustr\<close> turns an ASCII
  literal of this theory into such a list.
\<close>

type_synonym pystr = "nat list"

definition ustr :: "string \<Rightarrow> pystr" where
  "ustr s = map of_char s"

text \<open>
  The objects that \<open>json.load\<close> returns and that \<open>print\<close> receives: \<open>None\<close>, \<open>bool\<close>,
  \<open>int\<close>, \<open>float\<close>, \<open>str\<close>, \<open>list\<close> and \<open>dict\<close> with \<open>str\<close> keys. An int that \<open>json.load\<close>
  returns is within the limit of digits that the conversion between \<open>int\<close> and \<open>str\<close>
  has, so that \<open>str\<close> of it does not fail. The program
  never computes with a float, so a float is carried as the text that \<open>repr\<close> gives it
  (which determines the float). A dict is the list of its items; a key is looked up at
  its first binding.
\<close>

datatype pyval =
    PNone
  | PBool bool
  | PInt int
  | PFloat pystr
  | PStr pystr
  | PList "pyval list"
  | PDict "(pystr \<times> pyval) list"

datatype exn =
    AttributeError
  | TypeError
  | ValueError
  | OSError
  | UnicodeDecodeError
  | UnicodeEncodeError
  | RecursionError
  | JSONDecodeError
  | URLError

text \<open>\<open>obj.get(key, default)\<close>: only a dict has the method.\<close>

fun dict_get :: "pyval \<Rightarrow> pystr \<Rightarrow> pyval \<Rightarrow> exn + pyval" where
  "dict_get (PDict kvs) k d = Inr (case map_of kvs k of Some v \<Rightarrow> v | None \<Rightarrow> d)"
| "dict_get _ k d = Inl AttributeError"

text \<open>\<open>needle in hay\<close> for two strings: \<open>needle\<close> occurs in \<open>hay\<close> as a contiguous run.\<close>

fun str_contains :: "pystr \<Rightarrow> pystr \<Rightarrow> bool" where
  "str_contains needle [] = (needle = [])"
| "str_contains needle (c # hay) = (prefix needle (c # hay) \<or> str_contains needle hay)"

text \<open>
  \<open>needle in obj\<close> for a string \<open>needle\<close>: substring test on a str, membership on a
  list, key membership on a dict, \<open>TypeError\<close> on anything that is not a container.
\<close>

fun py_in :: "pystr \<Rightarrow> pyval \<Rightarrow> exn + bool" where
  "py_in needle (PStr s) = Inr (str_contains needle s)"
| "py_in needle (PList xs) = Inr (PStr needle \<in> set xs)"
| "py_in needle (PDict kvs) = Inr (map_of kvs needle \<noteq> None)"
| "py_in needle _ = Inl TypeError"

text \<open>\<open>for item in obj\<close>: the sequence of items, or \<open>TypeError\<close> when \<open>obj\<close> is not iterable.\<close>

fun py_iter :: "pyval \<Rightarrow> exn + pyval list" where
  "py_iter (PList xs) = Inr xs"
| "py_iter (PDict kvs) = Inr (map (\<lambda>kv. PStr (fst kv)) kvs)"
| "py_iter (PStr s) = Inr (map (\<lambda>c. PStr [c]) s)"
| "py_iter _ = Inl TypeError"

definition and_then :: "exn + 'a \<Rightarrow> ('a \<Rightarrow> exn + 'b) \<Rightarrow> exn + 'b" where
  "and_then r f = (case r of Inl e \<Rightarrow> Inl e | Inr x \<Rightarrow> f x)"


section \<open>Standard output\<close>

text \<open>
  A run of the program: the text written to standard output so far and, once an
  exception is on its way out of \<open>main\<close>, that exception. A statement that comes after
  a raised exception is not executed.
\<close>

record run =
  stdout :: pystr
  raised :: "exn option"

definition start :: run where
  "start = \<lparr>stdout = [], raised = None\<rparr>"

definition fail :: "exn \<Rightarrow> run \<Rightarrow> run" where
  "fail e r = r\<lparr>raised := Some e\<rparr>"

text \<open>
  \<open>str(obj)\<close>. For a list or a dict it is Python's \<open>repr\<close>, which depends on the Unicode
  database and may raise (\<open>RecursionError\<close>); it is the parameter \<open>R\<close>.
\<close>

fun digits :: "nat \<Rightarrow> pystr" where
  "digits n = (if n < 10 then [48 + n] else digits (n div 10) @ [48 + n mod 10])"

declare digits.simps [simp del]

definition str_int :: "int \<Rightarrow> pystr" where
  "str_int i = (if i < 0 then 45 # digits (nat (- i)) else digits (nat i))"

fun py_str :: "(pyval \<Rightarrow> exn + pystr) \<Rightarrow> pyval \<Rightarrow> exn + pystr" where
  "py_str R PNone = Inr (ustr ''None'')"
| "py_str R (PBool b) = Inr (if b then ustr ''True'' else ustr ''False'')"
| "py_str R (PInt i) = Inr (str_int i)"
| "py_str R (PFloat r) = Inr r"
| "py_str R (PStr s) = Inr s"
| "py_str R v = R v"

text \<open>
  \<open>sys.stdout.write(s)\<close>, standard output being a text stream in UTF-8 with the error
  handler \<open>strict\<close>. A surrogate code point has no encoding: the call then raises
  \<open>UnicodeEncodeError\<close> and writes nothing of \<open>s\<close>; what earlier calls wrote stays.
\<close>

definition surrogate :: "nat \<Rightarrow> bool" where
  "surrogate c = (55296 \<le> c \<and> c \<le> 57343)"

definition writable :: "pystr \<Rightarrow> bool" where
  "writable s = list_all (\<lambda>c. \<not> surrogate c) s"

definition stdout_write :: "pystr \<Rightarrow> run \<Rightarrow> run" where
  "stdout_write s r =
     (case raised r of
        Some e \<Rightarrow> r
      | None \<Rightarrow> if writable s then r\<lparr>stdout := stdout r @ s\<rparr> else fail UnicodeEncodeError r)"

text \<open>
  \<open>print(*args)\<close>: for each object in turn, a space if it is not the first, then
  \<open>str\<close> of the object, computed and written; at the end a newline.
\<close>

definition write_object :: "(pyval \<Rightarrow> exn + pystr) \<Rightarrow> pyval \<Rightarrow> run \<Rightarrow> run" where
  "write_object R v r =
     (case raised r of
        Some e \<Rightarrow> r
      | None \<Rightarrow> (case py_str R v of Inl e \<Rightarrow> fail e r | Inr s \<Rightarrow> stdout_write s r))"

fun write_args :: "(pyval \<Rightarrow> exn + pystr) \<Rightarrow> pyval list \<Rightarrow> run \<Rightarrow> run" where
  "write_args R [] r = r"
| "write_args R [v] r = write_object R v r"
| "write_args R (v # w # vs) r =
     write_args R (w # vs) (stdout_write [32] (write_object R v r))"

definition py_print :: "(pyval \<Rightarrow> exn + pystr) \<Rightarrow> pyval list \<Rightarrow> run \<Rightarrow> run" where
  "py_print R args r = stdout_write [10] (write_args R args r)"

text \<open>
  The statement \<open>print(label, expr)\<close>: the expression is evaluated, which may raise,
  then the two objects are printed. \<open>print_each\<close> is a block of such statements.
\<close>

definition print_field ::
  "(pyval \<Rightarrow> exn + pystr) \<Rightarrow> pystr \<Rightarrow> exn + pyval \<Rightarrow> run \<Rightarrow> run" where
  "print_field R label expr r =
     (case raised r of
        Some e \<Rightarrow> r
      | None \<Rightarrow> (case expr of Inl e \<Rightarrow> fail e r | Inr v \<Rightarrow> py_print R [PStr label, v] r))"

fun print_each ::
  "(pyval \<Rightarrow> exn + pystr) \<Rightarrow> (pystr \<times> (exn + pyval)) list \<Rightarrow> run \<Rightarrow> run" where
  "print_each R [] r = r"
| "print_each R ((label, expr) # rest) r = print_each R rest (print_field R label expr r)"


section \<open>The environment loader: \<open>load_dotenv\<close>\<close>

text \<open>\<open>os.environ\<close>: a mapping from names to values.\<close>

type_synonym environ = "pystr \<rightharpoonup> pystr"

text \<open>\<open>str.isspace\<close> on one code point: the characters \<open>str.strip()\<close> removes.\<close>

definition is_space :: "nat \<Rightarrow> bool" where
  "is_space c =
     ((9 \<le> c \<and> c \<le> 13) \<or> (28 \<le> c \<and> c \<le> 32) \<or> c = 133 \<or> c = 160 \<or> c = 5760 \<or>
      (8192 \<le> c \<and> c \<le> 8202) \<or> c = 8232 \<or> c = 8233 \<or> c = 8239 \<or> c = 8287 \<or>
      c = 12288)"

definition strip :: "pystr \<Rightarrow> pystr" where
  "strip s = rev (dropWhile is_space (rev (dropWhile is_space s)))"

definition EQUALS :: nat where
  "EQUALS = of_char CHR ''=''"

text \<open>\<open>s.split(sep, 1)\<close> for a one-character separator: at most one split, at its first
  occurrence.\<close>

definition split1 :: "nat \<Rightarrow> pystr \<Rightarrow> pystr list" where
  "split1 sep s =
     (if sep \<in> set s
      then [takeWhile (\<lambda>c. c \<noteq> sep) s, tl (dropWhile (\<lambda>c. c \<noteq> sep) s)]
      else [s])"

text \<open>
  \<open>os.environ[key] = val\<close> (CPython 3 on Linux). \<open>putenv\<close> refuses a NUL character in
  the name or the value and an \<open>=\<close> in the name with \<open>ValueError\<close>; the C library's
  \<open>setenv\<close> then refuses an empty name, which gives \<open>OSError\<close>. The mapping is changed
  only when the call went through.
\<close>

definition environ_setitem :: "environ \<Rightarrow> pystr \<Rightarrow> pystr \<Rightarrow> exn + environ" where
  "environ_setitem env key val =
     (if 0 \<in> set key \<or> 0 \<in> set val \<or> EQUALS \<in> set key then Inl ValueError
      else if key = [] then Inl OSError
      else Inr (env(key \<mapsto> val)))"

text \<open>\<open>os.environ.setdefault(key, val)\<close>: \<open>if key not in self: self[key] = val\<close>.\<close>

definition environ_setdefault :: "environ \<Rightarrow> pystr \<Rightarrow> pystr \<Rightarrow> exn + environ" where
  "environ_setdefault env key val =
     (case env key of Some old \<Rightarrow> Inr env | None \<Rightarrow> environ_setitem env key val)"

text \<open>The body of the loop of \<open>load_dotenv\<close> (source lines 11 to 17), for one line.\<close>

definition process_line :: "environ \<Rightarrow> pystr \<Rightarrow> exn + environ" where
  "process_line env raw =
     (let line = strip raw in
      if line = [] \<or> prefix (ustr ''#'') line then Inr env
      else if EQUALS \<notin> set line then Inr env
      else (case split1 EQUALS line of
              [key, val] \<Rightarrow> environ_setdefault env key val
            | _ \<Rightarrow> Inl ValueError))"

text \<open>The loop: the environment reached, and the exception that ended the loop early.\<close>

fun load_lines :: "environ \<Rightarrow> pystr list \<Rightarrow> environ \<times> exn option" where
  "load_lines env [] = (env, None)"
| "load_lines env (raw # rest) =
     (case process_line env raw of
        Inl e \<Rightarrow> (env, Some e)
      | Inr env' \<Rightarrow> load_lines env' rest)"

text \<open>
  What a path names: nothing (\<open>os.path.exists\<close> is false); something \<open>open\<close> refuses (a
  directory, a file without read permission); or a text file, given by the lines that
  iterating over it yields and the exception, if any, that ends the iteration (bytes
  that are not UTF-8).
\<close>

datatype fs_entry =
    Absent
  | Unopenable
  | TextFile "pystr list" "exn option"

definition load_dotenv :: "(pystr \<Rightarrow> fs_entry) \<Rightarrow> pystr \<Rightarrow> environ \<Rightarrow> environ \<times> exn option" where
  "load_dotenv fs path env =
     (case fs path of
        Absent \<Rightarrow> (env, None)
      | Unopenable \<Rightarrow> (env, Some OSError)
      | TextFile lines tail \<Rightarrow>
          (case load_lines env lines of
             (env', Some e) \<Rightarrow> (env', Some e)
           | (env', None) \<Rightarrow> (env', tail)))"


section \<open>The listing query runner: \<open>main\<close>\<close>

subsection \<open>Scanning the parsed response (source lines 50 to 63)\<close>

definition TARGET :: pystr where
  "TARGET = ustr ''53 Bridge Street''"

text \<open>Lines 53 to 61: the report of a matching record, then \<open>return\<close>.\<close>

definition report :: "(pyval \<Rightarrow> exn + pystr) \<Rightarrow> pyval \<Rightarrow> pyval \<Rightarrow> run" where
  "report R item address =
     (case dict_get item (ustr ''listing'') (PDict []) of
        Inl e \<Rightarrow> fail e start
      | Inr listing \<Rightarrow>
          (case dict_get listing (ustr ''property'') (PDict []) of
             Inl e \<Rightarrow> fail e start
           | Inr prop \<Rightarrow>
               print_each R
                 [(ustr ''listingId'', dict_get item (ustr ''listingId'') PNone),
                  (ustr ''price'', dict_get listing (ustr ''listPriceLow'') PNone),
                  (ustr ''beds'', dict_get prop (ustr ''bedroomsTotal'') PNone),
                  (ustr ''baths'', dict_get prop (ustr ''bathroomsTotal'') PNone),
                  (ustr ''sqft'', dict_get prop (ustr ''livingArea'') PNone),
                  (ustr ''fullAddress'', dict_get address (ustr ''unparsedAddress'') PNone)]
                 start))"

text \<open>
  The \<open>for\<close> loop over the records and the \<open>print("not found")\<close> after it. Line 51 is
  \<open>address = item.get("listing", {}).get("address", {})\<close>, line 52 the test
  \<open>"53 Bridge Street" in address.get("unparsedAddress", "")\<close>. Nothing is printed
  before the loop ends or a record matches.
\<close>

fun scan :: "(pyval \<Rightarrow> exn + pystr) \<Rightarrow> pyval list \<Rightarrow> run" where
  "scan R [] = py_print R [PStr (ustr ''not found'')] start"
| "scan R (item # rest) =
     (case and_then (dict_get item (ustr ''listing'') (PDict []))
             (\<lambda>listing. dict_get listing (ustr ''address'') (PDict [])) of
        Inl e \<Rightarrow> fail e start
      | Inr address \<Rightarrow>
          (case and_then (dict_get address (ustr ''unparsedAddress'') (PStr []))
                  (py_in TARGET) of
             Inl e \<Rightarrow> fail e start
           | Inr True \<Rightarrow> report R item address
           | Inr False \<Rightarrow> scan R rest))"

text \<open>Line 50: the loop runs over \<open>payload.get("data", [])\<close>.\<close>

definition handle_payload :: "(pyval \<Rightarrow> exn + pystr) \<Rightarrow> pyval \<Rightarrow> run" where
  "handle_payload R payload =
     (case and_then (dict_get payload (ustr ''data'') (PList [])) py_iter of
        Inl e \<Rightarrow> fail e start
      | Inr items \<Rightarrow> scan R items)"


subsection \<open>Decoding the body of an HTTP error\<close>

text \<open>
  \<open>bytes.decode('utf-8', errors=...)\<close> as CPython does it. One step looks at the bytes
  from the current position: it decodes one code point from a well-formed sequence of
  1 to 4 bytes, or reports how many bytes are in error (an invalid start byte, the
  bytes before an invalid continuation byte, or a sequence cut off by the end of the
  data). In mode \<open>strict\<close> an error raises; in mode \<open>ignore\<close> its bytes are skipped.
\<close>

datatype errors_mode = Strict | Ignore

datatype utf8_result = Decoded nat nat | Invalid nat

definition is_cont :: "nat \<Rightarrow> bool" where
  "is_cont b = (128 \<le> b \<and> b < 192)"

fun utf8_step :: "nat list \<Rightarrow> utf8_result" where
  "utf8_step [] = Invalid 0"
| "utf8_step (ch # bs) =
     (if ch < 128 then Decoded ch 1
      else if ch < 194 then Invalid 1
      else if ch < 224 then
        (case bs of
           [] \<Rightarrow> Invalid 1
         | ch2 # _ \<Rightarrow>
             if \<not> is_cont ch2 then Invalid 1
             else Decoded ((ch - 192) * 64 + (ch2 - 128)) 2)
      else if ch < 240 then
        (case bs of
           [] \<Rightarrow> Invalid 1
         | ch2 # bs2 \<Rightarrow>
             if \<not> is_cont ch2 \<or> (if ch2 < 160 then ch = 224 else ch = 237) then Invalid 1
             else
               (case bs2 of
                  [] \<Rightarrow> Invalid 2
                | ch3 # _ \<Rightarrow>
                    if \<not> is_cont ch3 then Invalid 2
                    else Decoded ((ch - 224) * 4096 + (ch2 - 128) * 64 + (ch3 - 128)) 3))
      else if ch < 245 then
        (case bs of
           [] \<Rightarrow> Invalid 1
         | ch2 # bs2 \<Rightarrow>
             if \<not> is_cont ch2 \<or> (if ch2 < 144 then ch = 240 else ch = 244) then Invalid 1
             else
               (case bs2 of
                  [] \<Rightarrow> Invalid 2
                | ch3 # bs3 \<Rightarrow>
                    if \<not> is_cont ch3 then Invalid 2
                    else
                      (case bs3 of
                         [] \<Rightarrow> Invalid 3
                       | ch4 # _ \<Rightarrow>
                           if \<not> is_cont ch4 then Invalid 3
                           else Decoded ((ch - 240) * 262144 + (ch2 - 128) * 4096 +
                                         (ch3 - 128) * 64 + (ch4 - 128)) 4)))
      else Invalid 1)"

text \<open>
  The decoder is at a position where \<open>skip\<close> bytes of the sequence it has just handled
  are still ahead; with \<open>skip = 0\<close> it takes the next step.
\<close>

fun utf8_from :: "errors_mode \<Rightarrow> nat \<Rightarrow> nat list \<Rightarrow> exn + pystr" where
  "utf8_from m skip [] = Inr []"
| "utf8_from m (Suc skip) (b # bs) = utf8_from m skip bs"
| "utf8_from m 0 (b # bs) =
     (case utf8_step (b # bs) of
        Decoded cp n \<Rightarrow>
          (case utf8_from m (n - 1) bs of Inl e \<Rightarrow> Inl e | Inr s \<Rightarrow> Inr (cp # s))
      | Invalid n \<Rightarrow>
          (case m of Strict \<Rightarrow> Inl UnicodeDecodeError | Ignore \<Rightarrow> utf8_from m (n - 1) bs))"

definition bytes_decode :: "errors_mode \<Rightarrow> 8 word list \<Rightarrow> exn + pystr" where
  "bytes_decode m bs = utf8_from m 0 (map unat bs)"


subsection \<open>The request and its outcome\<close>

record request =
  req_url :: pystr
  req_data :: pystr
  req_headers :: "(pystr \<times> pystr) list"
  req_method :: pystr
  req_timeout :: nat

text \<open>Lines 20 to 39; \<open>req_data\<close> is \<open>json.dumps(body)\<close> for the fixed search body.\<close>

definition build_request :: "environ \<Rightarrow> request" where
  "build_request env =
     \<lparr>req_url = ustr ''https://api.realestateapi.com/v2/MLSSearch'',
      req_data = ustr (''{\"latitude\": 43.970837, \"longitude\": -75.61923, '' @
                       ''\"radius\": 5, \"size\": 100, \"active\": true}''),
      req_headers =
        [(ustr ''Content-Type'', ustr ''application/json''),
         (ustr ''Accept'', ustr ''application/json''),
         (ustr ''x-api-key'', case env (ustr ''RE_API_KEY'') of Some k \<Rightarrow> k | None \<Rightarrow> [])],
      req_method = ustr ''POST'',
      req_timeout = 60\<rparr>"

text \<open>
  What lines 42 and 43 (\<open>urlopen\<close>, then \<open>json.load\<close>) end with: the parsed payload; an
  \<open>HTTPError\<close>, which \<open>urlopen\<close> raises for a status that is not 2xx; or another
  exception. An \<open>HTTPError\<close> has the status code, the reason phrase and the body of the
  response. The reason phrase is part of the status line, which \<open>http.client\<close> decodes
  as ISO-8859-1, one code point below 256 for each byte: it is given by its bytes.
\<close>

record http_error =
  err_code :: int
  err_reason :: "8 word list"
  err_body :: "8 word list"

datatype response =
    Parsed pyval
  | HTTPError http_error
  | Failed exn

definition latin1_decode :: "8 word list \<Rightarrow> pystr" where
  "latin1_decode bs = map unat bs"

text \<open>Lines 44 to 48: the handler of \<open>HTTPError\<close>.\<close>

definition handle_http_error :: "(pyval \<Rightarrow> exn + pystr) \<Rightarrow> http_error \<Rightarrow> run" where
  "handle_http_error R err =
     (let r = py_print R
                [PStr (ustr ''HTTP error''), PInt (err_code err),
                 PStr (latin1_decode (err_reason err))]
                start
      in case raised r of
           Some e \<Rightarrow> r
         | None \<Rightarrow>
             (case bytes_decode Ignore (err_body err) of
                Inl e \<Rightarrow> fail e r
              | Inr body \<Rightarrow> py_print R [PStr body] r))"

text \<open>
  \<open>main\<close>, in a world given by the file system, the environment of the process and the
  server (the outcome of the one request). It returns the environment it leaves and
  its run.
\<close>

definition main ::
  "(pyval \<Rightarrow> exn + pystr) \<Rightarrow> (pystr \<Rightarrow> fs_entry) \<Rightarrow> environ \<Rightarrow> (request \<Rightarrow> response) \<Rightarrow>
     environ \<times> run" where
  "main R fs env urlopen =
     (case load_dotenv fs (ustr ''.env'') env of
        (env', Some e) \<Rightarrow> (env', fail e start)
      | (env', None) \<Rightarrow>
          (env',
           case urlopen (build_request env') of
             Parsed payload \<Rightarrow> handle_payload R payload
           | HTTPError err \<Rightarrow> handle_http_error R err
           | Failed e \<Rightarrow> fail e start))"


section \<open>The data model of the specification\<close>

text \<open>
  The search response as the specification describes it: an object whose \<open>data\<close>
  attribute is a sequence of listing records. A record nests
  \<open>listing.address.unparsedAddress\<close> (a string) and \<open>listing.property\<close> (an object);
  any nested attribute may be absent. These definitions follow the specification, not
  the code; the theorems below compare the code with them.
\<close>

fun lookup_path :: "pystr list \<Rightarrow> pyval \<Rightarrow> pyval option" where
  "lookup_path [] v = Some v"
| "lookup_path (k # ks) (PDict kvs) =
     (case map_of kvs k of None \<Rightarrow> None | Some v \<Rightarrow> lookup_path ks v)"
| "lookup_path (k # ks) _ = None"

text \<open>The value of a nested attribute, \<open>None\<close> when it is absent.\<close>

definition field :: "pystr list \<Rightarrow> pyval \<Rightarrow> pyval" where
  "field path r = (case lookup_path path r of Some v \<Rightarrow> v | None \<Rightarrow> PNone)"

definition ADDRESS_PATH :: "pystr list" where
  "ADDRESS_PATH = [ustr ''listing'', ustr ''address'', ustr ''unparsedAddress'']"

text \<open>The nested address string of a record, empty when any level is absent.\<close>

definition address_text :: "pyval \<Rightarrow> pystr" where
  "address_text r = (case lookup_path ADDRESS_PATH r of Some (PStr s) \<Rightarrow> s | _ \<Rightarrow> [])"

definition is_dict :: "pyval \<Rightarrow> bool" where
  "is_dict v = (case v of PDict kvs \<Rightarrow> True | _ \<Rightarrow> False)"

definition is_str :: "pyval \<Rightarrow> bool" where
  "is_str v = (case v of PStr s \<Rightarrow> True | _ \<Rightarrow> False)"

text \<open>\<open>obj\<close> is an object whose attribute \<open>k\<close> is absent or satisfies \<open>P\<close>.\<close>

definition opt_attr :: "pyval \<Rightarrow> pystr \<Rightarrow> (pyval \<Rightarrow> bool) \<Rightarrow> bool" where
  "opt_attr obj k P =
     (case obj of
        PDict kvs \<Rightarrow> (case map_of kvs k of None \<Rightarrow> True | Some v \<Rightarrow> P v)
      | _ \<Rightarrow> False)"

text \<open>
  The shape of a record. \<open>address_shape\<close>: the record is an object, and down the path to
  the address each attribute is absent or of its documented kind (\<open>listing\<close> and
  \<open>address\<close> objects, \<open>unparsedAddress\<close> a string). \<open>listing_record\<close>: moreover
  \<open>listing.property\<close> is absent or an object.
\<close>

definition address_shape :: "pyval \<Rightarrow> bool" where
  "address_shape r =
     opt_attr r (ustr ''listing'')
       (\<lambda>l. opt_attr l (ustr ''address'') (\<lambda>a. opt_attr a (ustr ''unparsedAddress'') is_str))"

definition listing_record :: "pyval \<Rightarrow> bool" where
  "listing_record r =
     (address_shape r \<and> opt_attr r (ustr ''listing'') (\<lambda>l. opt_attr l (ustr ''property'') is_dict))"

definition data_array :: "pyval \<Rightarrow> pyval list option" where
  "data_array payload =
     (case lookup_path [ustr ''data''] payload of Some (PList items) \<Rightarrow> Some items | _ \<Rightarrow> None)"

text \<open>The labelled fields of the report, each with the path of its value in the record.\<close>

definition REPORTED :: "(pystr \<times> pystr list) list" where
  "REPORTED =
     [(ustr ''listingId'', [ustr ''listingId'']),
      (ustr ''price'', [ustr ''listing'', ustr ''listPriceLow'']),
      (ustr ''beds'', [ustr ''listing'', ustr ''property'', ustr ''bedroomsTotal'']),
      (ustr ''baths'', [ustr ''listing'', ustr ''property'', ustr ''bathroomsTotal'']),
      (ustr ''sqft'', [ustr ''listing'', ustr ''property'', ustr ''livingArea''])]"

text \<open>
  The labelled values of the report of a record, in the order of the report: the five
  fields above, \<open>None\<close> standing for a field that is absent, then the address string.
\<close>

definition reported :: "pyval \<Rightarrow> (pystr \<times> pyval) list" where
  "reported r =
     map (\<lambda>lp. (fst lp, field (snd lp) r)) REPORTED @
     [(ustr ''fullAddress'', PStr (address_text r))]"

text \<open>
  A value can be printed when \<open>str\<close> of it is computed without an exception and can be
  encoded for standard output. \<open>line_text\<close> is the line \<open>label value\<close> with its newline,
  and \<open>statements\<close> the block \<open>print(label, value)\<close> for a list of labelled values.
\<close>

definition printable :: "(pyval \<Rightarrow> exn + pystr) \<Rightarrow> pyval \<Rightarrow> bool" where
  "printable R v = (case py_str R v of Inl e \<Rightarrow> False | Inr s \<Rightarrow> writable s)"

definition text_of :: "(pyval \<Rightarrow> exn + pystr) \<Rightarrow> pyval \<Rightarrow> pystr" where
  "text_of R v = (case py_str R v of Inl e \<Rightarrow> [] | Inr s \<Rightarrow> s)"

definition line_text :: "(pyval \<Rightarrow> exn + pystr) \<Rightarrow> pystr \<times> pyval \<Rightarrow> pystr" where
  "line_text R lv = fst lv @ 32 # text_of R (snd lv) @ [10]"

definition statements :: "(pystr \<times> pyval) list \<Rightarrow> (pystr \<times> (exn + pyval)) list" where
  "statements lvs = map (\<lambda>lv. (fst lv, Inr (snd lv))) lvs"




section \<open>Example inputs\<close>

text \<open>
  A file system with no files, and a server that answers every request alike. None of
  the examples prints a list or a dict; \<open>no_repr\<close> stands where their \<open>repr\<close> would.
\<close>

definition no_files :: "pystr \<Rightarrow> fs_entry" where
  "no_files path = Absent"

definition server :: "response \<Rightarrow> request \<Rightarrow> response" where
  "server answer req = answer"

definition no_repr :: "pyval \<Rightarrow> exn + pystr" where
  "no_repr v = Inr []"

text \<open>The record of the specification's end-to-end example, and its payload.\<close>

definition example_record :: pyval where
  "example_record =
     PDict
       [(ustr ''listingId'', PInt 42),
        (ustr ''listing'',
         PDict
           [(ustr ''listPriceLow'', PInt 250000),
            (ustr ''address'',
             PDict [(ustr ''unparsedAddress'', PStr (ustr ''53 Bridge Street, Rome, NY 13440''))]),
            (ustr ''property'',
             PDict
               [(ustr ''bedroomsTotal'', PInt 3),
                (ustr ''bathroomsTotal'', PInt 2),
                (ustr ''livingArea'', PInt 1500)])])]"

definition example_payload :: pyval where
  "example_payload = PDict [(ustr ''data'', PList [example_record])]"

text \<open>
  A record that has an address and nothing else; a payload with a record at another
  address and two matches; a payload whose only record matches and has a lone
  surrogate (\<open>U+D800\<close>) at the end of its address.
\<close>

definition with_address :: "pystr \<Rightarrow> pyval" where
  "with_address a =
     PDict [(ustr ''listing'', PDict [(ustr ''address'', PDict [(ustr ''unparsedAddress'', PStr a)])])]"

definition address_only :: "string \<Rightarrow> pyval" where
  "address_only a = with_address (ustr a)"




text \<open>An HTTP 401 whose body has a byte that is not UTF-8 between \<open>n\<close> and \<open>o\<close>.\<close>

definition example_error :: http_error where
  "example_error =
     \<lparr>err_code = 401,
      err_reason = [85, 110, 97, 117, 116, 104, 111, 114, 105, 122, 101, 100],
      err_body = [110, 255, 111]\<rparr>"

text \<open>
  A configuration file of four lines, and an environment that already has a value
  for \<open>RE_API_KEY\<close>.
\<close>

definition example_lines :: "pystr list" where
  "example_lines =
     [ustr ''# settings'' @ [10],
      ustr ''RE_API_KEY=from-file'' @ [10],
      ustr ''  BASE=http://host/?a=b  '' @ [10],
      ustr ''no separator here'' @ [10]]"

definition example_fs :: "pystr \<Rightarrow> fs_entry" where
  "example_fs path = (if path = ustr ''.env'' then TextFile example_lines None else Absent)"

definition example_env :: environ where
  "example_env = [ustr ''RE_API_KEY'' \<mapsto> ustr ''secret'']"


section \<open>Facts about literals\<close>

lemma ustr_eq_iff: "ustr a = ustr b \<longleftrightarrow> a = b"
proof -
  have "inj (of_char :: char \<Rightarrow> nat)" by (rule injI) simp
  then show ?thesis unfolding ustr_def by (simp add: inj_map_eq_map)
qed

lemma TARGET_nonempty: "TARGET \<noteq> []"
  by (simp add: TARGET_def ustr_def)

section \<open>The environment loader\<close>

lemma split1_at_first:
  assumes "sep \<notin> set k"
  shows "split1 sep (k @ sep # v) = [k, v]"
proof -
  have "takeWhile (\<lambda>c. c \<noteq> sep) (k @ sep # v) = k"
    using assms by (induction k) auto
  moreover have "dropWhile (\<lambda>c. c \<noteq> sep) (k @ sep # v) = sep # v"
    using assms by (induction k) auto
  ultimately show ?thesis by (simp add: split1_def)
qed

lemma process_line_skipped:
  assumes "strip raw = [] \<or> prefix (ustr ''#'') (strip raw) \<or> EQUALS \<notin> set (strip raw)"
  shows "process_line env raw = Inr env"
  using assms by (auto simp: process_line_def Let_def)

lemma process_line_entry:
  assumes "strip raw = k @ EQUALS # v" and "EQUALS \<notin> set k"
    and "\<not> prefix (ustr ''#'') (strip raw)"
  shows "process_line env raw = environ_setdefault env k v"
  using assms by (simp add: process_line_def Let_def split1_at_first)

lemma environ_setdefault_keeps:
  assumes "environ_setdefault env k v = Inr env'" and "env x = Some y"
  shows "env' x = Some y"
  using assms
  by (auto simp: environ_setdefault_def environ_setitem_def split: option.splits if_splits)

lemma process_line_keeps:
  assumes "process_line env raw = Inr env'" and "env x = Some y"
  shows "env' x = Some y"
  using assms
  by (auto simp: process_line_def Let_def split: if_splits list.splits
           dest: environ_setdefault_keeps)

lemma load_lines_keeps:
  assumes "env x = Some y"
  shows "fst (load_lines env ls) x = Some y"
  using assms
proof (induction ls arbitrary: env)
  case Nil
  then show ?case by simp
next
  case (Cons raw ls)
  show ?case
  proof (cases "process_line env raw")
    case (Inl e)
    with Cons.prems show ?thesis by simp
  next
    case (Inr env')
    with Cons.prems have "env' x = Some y" by (auto dest: process_line_keeps)
    with Cons.IH Inr show ?thesis by simp
  qed
qed

lemma load_lines_append:
  "load_lines env (pre @ ls) =
     (case load_lines env pre of
        (env1, None) \<Rightarrow> load_lines env1 ls
      | (env1, Some e) \<Rightarrow> (env1, Some e))"
  by (induction pre arbitrary: env) (auto split: sum.splits)

lemma load_lines_skip:
  assumes "\<And>env1. process_line env1 raw = Inr env1"
  shows "load_lines env (pre @ raw # post) = load_lines env (pre @ post)"
  using assms by (simp add: load_lines_append split: prod.splits option.splits)

lemma fst_load_dotenv:
  assumes "fs path = TextFile ls tail"
  shows "fst (load_dotenv fs path env) = fst (load_lines env ls)"
  using assms by (simp add: load_dotenv_def split: prod.splits option.splits)

text \<open>
  Claim C9: if the configuration file at the given path does not exist, \<open>load_dotenv\<close>
  returns at once, with no error and the environment as it was.
\<close>

theorem C9_missing_file:
  assumes "fs path = Absent"
  shows "load_dotenv fs path env = (env, None)"
  using assms by (simp add: load_dotenv_def)

theorem C9_missing_file_witness:
  "no_files (ustr ''.env'') = Absent \<and>
   load_dotenv no_files (ustr ''.env'') example_env = (example_env, None)"
  using C9_missing_file [of no_files "ustr ''.env''" example_env]
  by (simp add: no_files_def)

text \<open>
  Claim C8: a line that, once stripped, is empty, starts with \<open>#\<close> or has no \<open>=\<close>
  leaves the environment as it was and raises nothing; the file loads as it would
  without that line.
\<close>

theorem C8_skipped_line:
  assumes "strip raw = [] \<or> prefix (ustr ''#'') (strip raw) \<or> EQUALS \<notin> set (strip raw)"
  shows "process_line env raw = Inr env \<and>
         load_lines env0 (pre @ raw # post) = load_lines env0 (pre @ post)"
proof
  show "process_line env raw = Inr env"
    using assms by (rule process_line_skipped)
  show "load_lines env0 (pre @ raw # post) = load_lines env0 (pre @ post)"
    using assms by (intro load_lines_skip process_line_skipped)
qed

theorem C8_skipped_line_witness:
  "process_line example_env (ustr ''# settings'' @ [10]) = Inr example_env \<and>
   process_line example_env (ustr ''no separator here'' @ [10]) = Inr example_env \<and>
   load_lines example_env example_lines = load_lines example_env (tl example_lines)"
proof -
  have a: "strip (ustr ''# settings'' @ [10]) = ustr ''# settings''"
    by (simp add: strip_def ustr_def is_space_def)
  have b: "strip (ustr ''no separator here'' @ [10]) = ustr ''no separator here''"
    by (simp add: strip_def ustr_def is_space_def)
  have c: "EQUALS \<notin> set (ustr ''no separator here'')"
    by (simp add: EQUALS_def ustr_def)
  have d: "prefix (ustr ''#'') (ustr ''# settings'')"
    by (simp add: ustr_def)
  show ?thesis
    using C8_skipped_line [of "ustr ''# settings'' @ [10]" example_env example_env "[]"
        "tl example_lines"]
      C8_skipped_line [of "ustr ''no separator here'' @ [10]" example_env example_env "[]" "[]"]
    by (simp add: a b c d example_lines_def)
qed

text \<open>
  Claim C6: a stripped line that is not empty, is not a comment and has an \<open>=\<close> is
  split at its first \<open>=\<close>: the key is what stands before it (and has no \<open>=\<close>), the value
  is all that follows, further \<open>=\<close> included; these two go to \<open>os.environ.setdefault\<close>.
\<close>

theorem C6_split_at_first_equals:
  assumes "strip raw \<noteq> []" and "\<not> prefix (ustr ''#'') (strip raw)"
    and "EQUALS \<in> set (strip raw)"
  shows "\<exists>key val. strip raw = key @ EQUALS # val \<and> EQUALS \<notin> set key \<and>
           split1 EQUALS (strip raw) = [key, val] \<and>
           process_line env raw = environ_setdefault env key val"
proof -
  from assms(3) obtain key val where kv: "strip raw = key @ EQUALS # val" "EQUALS \<notin> set key"
    by (metis split_list_first)
  have "split1 EQUALS (strip raw) = [key, val]"
    using kv by (simp add: split1_at_first)
  moreover have "process_line env raw = environ_setdefault env key val"
    using kv assms(2) by (rule process_line_entry)
  ultimately show ?thesis using kv by blast
qed

theorem C6_split_at_first_equals_witness:
  "split1 EQUALS (strip (ustr ''  BASE=http://host/?a=b  '' @ [10])) =
     [ustr ''BASE'', ustr ''http://host/?a=b''] \<and>
   process_line example_env (ustr ''  BASE=http://host/?a=b  '' @ [10]) =
     environ_setdefault example_env (ustr ''BASE'') (ustr ''http://host/?a=b'')"
proof -
  let ?raw = "ustr ''  BASE=http://host/?a=b  '' @ [10]"
  have s: "strip ?raw = ustr ''BASE=http://host/?a=b''"
    by (simp add: strip_def ustr_def is_space_def)
  have sp: "split1 EQUALS (strip ?raw) = [ustr ''BASE'', ustr ''http://host/?a=b'']"
    unfolding s by (simp add: split1_def EQUALS_def ustr_def)
  have h1: "strip ?raw \<noteq> []" and h2: "\<not> prefix (ustr ''#'') (strip ?raw)"
    and h3: "EQUALS \<in> set (strip ?raw)"
    unfolding s by (simp_all add: EQUALS_def ustr_def)
  from C6_split_at_first_equals [OF h1 h2 h3, of example_env] sp
  show ?thesis by auto
qed

text \<open>
  Claim C2: take a well-formed \<open>KEY=VALUE\<close> line of the file (once stripped: a name that
  is not empty, does not start with \<open>#\<close> and has no NUL character, then \<open>=\<close>, then a
  value with no NUL character), reached without an exception. The environment that
  \<open>load_dotenv\<close> leaves maps \<open>KEY\<close> to \<open>VALUE\<close>, unless \<open>KEY\<close> was already set when the
  line was reached: then it keeps the value it had.
\<close>

theorem C2_first_writer_wins:
  assumes "fs path = TextFile (pre @ raw # post) tail"
    and "load_lines env pre = (env1, None)"
    and "strip raw = key @ EQUALS # val"
    and "key \<noteq> []" and "EQUALS \<notin> set key" and "\<not> prefix (ustr ''#'') key"
    and "0 \<notin> set key" and "0 \<notin> set val"
  shows "process_line env1 raw =
           Inr (case env1 key of Some old \<Rightarrow> env1 | None \<Rightarrow> env1(key \<mapsto> val)) \<and>
         fst (load_dotenv fs path env) key =
           Some (case env1 key of Some old \<Rightarrow> old | None \<Rightarrow> val)"
proof -
  let ?env2 = "case env1 key of Some old \<Rightarrow> env1 | None \<Rightarrow> env1(key \<mapsto> val)"
  from assms(4,6) have "\<not> prefix (ustr ''#'') (strip raw)"
    unfolding assms(3) by (cases key) (auto simp: ustr_def)
  with assms(3,5) have "process_line env1 raw = environ_setdefault env1 key val"
    by (intro process_line_entry)
  also have "\<dots> = Inr ?env2"
    using assms(4,5,7,8)
    by (simp add: environ_setdefault_def environ_setitem_def split: option.splits)
  finally have step: "process_line env1 raw = Inr ?env2" .
  have bound: "?env2 key = Some (case env1 key of Some old \<Rightarrow> old | None \<Rightarrow> val)"
    by (simp split: option.splits)
  have "load_lines env (pre @ raw # post) = load_lines ?env2 post"
    using assms(2) step by (simp add: load_lines_append)
  then have "fst (load_lines env (pre @ raw # post)) key =
               Some (case env1 key of Some old \<Rightarrow> old | None \<Rightarrow> val)"
    using load_lines_keeps [of ?env2 key _ post] bound by simp
  with step show ?thesis
    using fst_load_dotenv [of fs path "pre @ raw # post" tail env] assms(1) by simp
qed

theorem C2_first_writer_wins_witness:
  "fst (load_dotenv example_fs (ustr ''.env'') example_env) (ustr ''RE_API_KEY'') =
     Some (ustr ''secret'') \<and>
   fst (load_dotenv example_fs (ustr ''.env'') example_env) (ustr ''BASE'') =
     Some (ustr ''http://host/?a=b'')"
proof -
  let ?l0 = "ustr ''# settings'' @ [10]"
  let ?l1 = "ustr ''RE_API_KEY=from-file'' @ [10]"
  let ?l2 = "ustr ''  BASE=http://host/?a=b  '' @ [10]"
  let ?l3 = "ustr ''no separator here'' @ [10]"
  have s0: "strip ?l0 = ustr ''# settings''"
    by (simp add: strip_def ustr_def is_space_def)
  have p0: "process_line example_env ?l0 = Inr example_env"
    by (rule process_line_skipped) (simp add: s0, simp add: ustr_def)
  have s1: "strip ?l1 = ustr ''RE_API_KEY'' @ EQUALS # ustr ''from-file''"
    by (simp add: strip_def ustr_def is_space_def EQUALS_def)
  have s2: "strip ?l2 = ustr ''BASE'' @ EQUALS # ustr ''http://host/?a=b''"
    by (simp add: strip_def ustr_def is_space_def EQUALS_def)
  have e1: "example_env (ustr ''RE_API_KEY'') = Some (ustr ''secret'')"
    by (simp add: example_env_def)
  have e2: "example_env (ustr ''BASE'') = None"
    by (simp add: example_env_def ustr_eq_iff)
  have f1: "example_fs (ustr ''.env'') = TextFile ([?l0] @ ?l1 # [?l2, ?l3]) None"
    by (simp add: example_fs_def example_lines_def)
  have f2: "example_fs (ustr ''.env'') = TextFile ([?l0, ?l1] @ ?l2 # [?l3]) None"
    by (simp add: example_fs_def example_lines_def)
  have pre1: "load_lines example_env [?l0] = (example_env, None)"
    by (simp add: p0)
  have n1: "EQUALS \<notin> set (ustr ''RE_API_KEY'')"
    by (simp add: ustr_def EQUALS_def)
  have n2: "\<not> prefix (ustr ''#'') (strip ?l1)"
    unfolding s1 by (simp add: ustr_def)
  have p1: "process_line example_env ?l1 = Inr example_env"
    using process_line_entry [OF s1 n1 n2, of example_env]
    by (simp add: environ_setdefault_def e1)
  have pre2: "load_lines example_env [?l0, ?l1] = (example_env, None)"
    by (simp add: p0 p1)
  have k1: "ustr ''RE_API_KEY'' \<noteq> [] \<and> EQUALS \<notin> set (ustr ''RE_API_KEY'') \<and>
            \<not> prefix (ustr ''#'') (ustr ''RE_API_KEY'') \<and> 0 \<notin> set (ustr ''RE_API_KEY'') \<and>
            0 \<notin> set (ustr ''from-file'')"
    by (simp add: ustr_def EQUALS_def)
  have k2: "ustr ''BASE'' \<noteq> [] \<and> EQUALS \<notin> set (ustr ''BASE'') \<and>
            \<not> prefix (ustr ''#'') (ustr ''BASE'') \<and> 0 \<notin> set (ustr ''BASE'') \<and>
            0 \<notin> set (ustr ''http://host/?a=b'')"
    by (simp add: ustr_def EQUALS_def)
  from C2_first_writer_wins [where fs = example_fs and path = "ustr ''.env''" and pre = "[?l0]"
      and raw = ?l1 and post = "[?l2, ?l3]" and tail = None and env = example_env
      and ?env1.0 = example_env and key = "ustr ''RE_API_KEY''" and val = "ustr ''from-file''"]
    f1 pre1 s1 k1
  have "fst (load_dotenv example_fs (ustr ''.env'') example_env) (ustr ''RE_API_KEY'') =
          Some (ustr ''secret'')"
    by (simp add: e1)
  moreover
  from C2_first_writer_wins [where fs = example_fs and path = "ustr ''.env''"
      and pre = "[?l0, ?l1]" and raw = ?l2 and post = "[?l3]" and tail = None
      and env = example_env and ?env1.0 = example_env and key = "ustr ''BASE''"
      and val = "ustr ''http://host/?a=b''"]
    f2 pre2 s2 k2
  have "fst (load_dotenv example_fs (ustr ''.env'') example_env) (ustr ''BASE'') =
          Some (ustr ''http://host/?a=b'')"
    by (simp add: e2)
  ultimately show ?thesis by simp
qed


section \<open>Printing\<close>

lemma of_char_below_256: "of_char c < (256::nat)"
proof -
  have "of_char c mod 256 = (of_char c :: nat)" by simp
  then show ?thesis by (metis mod_less_divisor zero_less_numeral)
qed

lemma writable_Nil: "writable []"
  by (simp add: writable_def)

lemma writable_Cons: "writable (c # s) \<longleftrightarrow> \<not> surrogate c \<and> writable s"
  by (simp add: writable_def)

lemma writable_append: "writable (a @ b) \<longleftrightarrow> writable a \<and> writable b"
  by (simp add: writable_def)

lemma writable_below_256:
  assumes "\<forall>c\<in>set s. c < 256"
  shows "writable s"
  using assms by (fastforce simp: writable_def list_all_iff surrogate_def)

lemma writable_ustr: "writable (ustr s)"
  by (rule writable_below_256) (auto simp: ustr_def of_char_below_256)

lemma writable_latin1: "writable (latin1_decode bs)"
proof (rule writable_below_256, rule ballI)
  fix c
  assume "c \<in> set (latin1_decode bs)"
  then obtain b :: "8 word" where "c = unat b"
    by (auto simp: latin1_decode_def)
  moreover have "unat b < 2 ^ LENGTH(8)" by (rule unsigned_less)
  ultimately show "c < 256" by simp
qed

lemma writable_digits: "writable (digits n)"
proof (induction n rule: digits.induct)
  case (1 n)
  show ?case
  proof (cases "n < 10")
    case True
    then show ?thesis
      by (subst digits.simps) (simp add: writable_Cons writable_Nil surrogate_def)
  next
    case False
    with 1 have "writable (digits (n div 10))" by simp
    moreover have "n mod 10 < 10" by simp
    ultimately show ?thesis
      using False
      by (subst digits.simps) (simp add: writable_append writable_Cons writable_Nil surrogate_def)
  qed
qed

lemma writable_str_int: "writable (str_int i)"
  by (simp add: str_int_def writable_Cons writable_digits surrogate_def)

lemma stdout_write_ok:
  assumes "raised r = None" and "writable s"
  shows "stdout_write s r = r\<lparr>stdout := stdout r @ s\<rparr>"
  using assms by (simp add: stdout_write_def)

lemma print_one_ok:
  assumes "raised r = None" and "py_str R v = Inr s" and "writable s"
  shows "py_print R [v] r = r\<lparr>stdout := stdout r @ s @ [10]\<rparr>"
  using assms
  by (simp add: py_print_def write_object_def stdout_write_def writable_def surrogate_def)

lemma print_field_ok:
  assumes "raised r = None" and "writable label" and "printable R v"
  shows "print_field R label (Inr v) r = r\<lparr>stdout := stdout r @ line_text R (label, v)\<rparr>"
proof -
  from assms(3) obtain s where s: "py_str R v = Inr s" and w: "writable s"
    by (auto simp: printable_def split: sum.splits)
  have sp: "writable [32]" and nl: "writable [10]"
    by (simp_all add: writable_def surrogate_def)
  show ?thesis
    using assms(1,2) s w sp nl
    by (simp add: print_field_def py_print_def write_object_def stdout_write_def
          line_text_def text_of_def)
qed

lemma print_each_ok:
  assumes "raised r = None"
    and "\<forall>lv\<in>set lvs. writable (fst lv) \<and> printable R (snd lv)"
  shows "print_each R (statements lvs) r =
           r\<lparr>stdout := stdout r @ concat (map (line_text R) lvs)\<rparr>"
  using assms
proof (induction lvs arbitrary: r)
  case Nil
  then show ?case by (simp add: statements_def)
next
  case (Cons lv lvs)
  let ?r = "r\<lparr>stdout := stdout r @ line_text R lv\<rparr>"
  from Cons.prems have "print_field R (fst lv) (Inr (snd lv)) r = ?r"
    by (simp add: print_field_ok)
  moreover have "raised ?r = None" using Cons.prems(1) by simp
  moreover from Cons.prems(2)
  have "\<forall>lv\<in>set lvs. writable (fst lv) \<and> printable R (snd lv)" by simp
  ultimately have "print_each R (statements (lv # lvs)) r =
      ?r\<lparr>stdout := stdout ?r @ concat (map (line_text R) lvs)\<rparr>"
    using Cons.IH [of ?r] by (simp add: statements_def)
  then show ?case by simp
qed

lemma printable_None: "printable R PNone"
  by (simp add: printable_def writable_ustr)

lemma printable_int: "printable R (PInt i)"
  by (simp add: printable_def writable_str_int)

lemma printable_str: "printable R (PStr s) \<longleftrightarrow> writable s"
  by (simp add: printable_def)

lemma reported_labels: "\<forall>lv\<in>set (reported r). writable (fst lv)"
  by (simp add: reported_def REPORTED_def writable_ustr)

lemma scan_empty: "scan R [] = \<lparr>stdout = ustr ''not found'' @ [10], raised = None\<rparr>"
  using print_one_ok [of start R "PStr (ustr ''not found'')" "ustr ''not found''"]
  by (simp add: start_def writable_ustr)

section \<open>The scan of the parsed response\<close>


lemma opt_attrE:
  assumes "opt_attr obj k P"
  obtains kvs where "obj = PDict kvs" and "map_of kvs k = None"
  | kvs v where "obj = PDict kvs" and "map_of kvs k = Some v" and "P v"
  using assms by (auto simp: opt_attr_def split: pyval.splits option.splits)

lemma is_dictE:
  assumes "is_dict v"
  obtains kvs where "v = PDict kvs"
  using assms by (auto simp: is_dict_def split: pyval.splits)

lemma is_strE:
  assumes "is_str v"
  obtains s where "v = PStr s"
  using assms by (auto simp: is_str_def split: pyval.splits)

lemma report_matched:
  assumes l: "map_of kvs (ustr ''listing'') = Some (PDict lkvs)"
    and a: "map_of lkvs (ustr ''address'') = Some (PDict akvs)"
    and u: "map_of akvs (ustr ''unparsedAddress'') = Some (PStr s)"
    and p: "opt_attr (PDict lkvs) (ustr ''property'') is_dict"
  shows "report R (PDict kvs) (PDict akvs) =
           print_each R (statements (reported (PDict kvs))) start"
proof -
  have addr: "address_text (PDict kvs) = s"
    by (simp add: address_text_def ADDRESS_PATH_def l a u)
  from p show ?thesis
  proof (cases rule: opt_attrE)
    case (1 kvs')
    then have "map_of lkvs (ustr ''property'') = None" by simp
    then show ?thesis
      by (simp add: report_def l a u addr statements_def reported_def REPORTED_def
            field_def del: print_each.simps split: option.split)
  next
    case (2 kvs' v)
    then obtain pkvs where "map_of lkvs (ustr ''property'') = Some (PDict pkvs)"
      by (auto elim: is_dictE)
    then show ?thesis
      by (simp add: report_def l a u addr statements_def reported_def REPORTED_def
            field_def del: print_each.simps split: option.split)
  qed
qed

lemma address_cases:
  assumes "address_shape r"
  obtains (absent) "lookup_path ADDRESS_PATH r = None"
      and "\<And>R rest. scan R (r # rest) = scan R rest"
  | (present) kvs lkvs akvs s
    where "r = PDict kvs" and "map_of kvs (ustr ''listing'') = Some (PDict lkvs)"
      and "map_of lkvs (ustr ''address'') = Some (PDict akvs)"
      and "map_of akvs (ustr ''unparsedAddress'') = Some (PStr s)"
proof -
  from assms have top: "opt_attr r (ustr ''listing'')
       (\<lambda>l. opt_attr l (ustr ''address'') (\<lambda>a. opt_attr a (ustr ''unparsedAddress'') is_str))"
    by (simp add: address_shape_def)
  note defs = and_then_def ADDRESS_PATH_def TARGET_nonempty
  from top show ?thesis
  proof (cases rule: opt_attrE)
    case (1 kvs)
    show ?thesis
      by (intro absent) (simp_all add: defs 1(1) 1(2))
  next
    case (2 kvs l)
    from 2(3) show ?thesis
    proof (cases rule: opt_attrE)
      case (1 lkvs)
      have L: "map_of kvs (ustr ''listing'') = Some (PDict lkvs)" using 2(2) 1(1) by simp
      show ?thesis
        by (intro absent) (simp_all add: defs 2(1) L 1(2))
    next
      case a: (2 lkvs a)
      have L: "map_of kvs (ustr ''listing'') = Some (PDict lkvs)" using 2(2) a(1) by simp
      from a(3) show ?thesis
      proof (cases rule: opt_attrE)
        case (1 akvs)
        have A: "map_of lkvs (ustr ''address'') = Some (PDict akvs)" using a(2) 1(1) by simp
        show ?thesis
          by (intro absent) (simp_all add: defs 2(1) L A 1(2))
      next
        case u: (2 akvs v)
        then obtain s where s: "v = PStr s" by (auto elim: is_strE)
        have A: "map_of lkvs (ustr ''address'') = Some (PDict akvs)" using a(2) u(1) by simp
        have U: "map_of akvs (ustr ''unparsedAddress'') = Some (PStr s)" using u(2) s by simp
        from 2(1) L A U show ?thesis by (rule present)
      qed
    qed
  qed
qed

lemma scan_non_match:
  assumes "address_shape r" and "\<not> str_contains TARGET (address_text r)"
  shows "scan R (r # rest) = scan R rest"
  using assms(1)
proof (cases rule: address_cases)
  case absent
  then show ?thesis by simp
next
  case (present kvs lkvs akvs s)
  then have "address_text r = s"
    by (simp add: address_text_def ADDRESS_PATH_def)
  with assms(2) present show ?thesis
    by (simp add: and_then_def)
qed

lemma scan_match:
  assumes "listing_record r" and "str_contains TARGET (address_text r)"
  shows "scan R (r # rest) = print_each R (statements (reported r)) start"
proof -
  from assms(1) have shape: "address_shape r"
    and inner: "opt_attr r (ustr ''listing'') (\<lambda>l. opt_attr l (ustr ''property'') is_dict)"
    by (simp_all add: listing_record_def)
  from shape show ?thesis
  proof (cases rule: address_cases)
    case absent
    then have "address_text r = []" by (simp add: address_text_def)
    with assms(2) show ?thesis by (simp add: TARGET_nonempty)
  next
    case (present kvs lkvs akvs s)
    have addr: "address_text (PDict kvs) = s"
      using present by (simp add: address_text_def ADDRESS_PATH_def)
    have P: "opt_attr (PDict lkvs) (ustr ''property'') is_dict"
      using inner present(1,2) by (simp add: opt_attr_def)
    have "report R (PDict kvs) (PDict akvs) =
            print_each R (statements (reported (PDict kvs))) start"
      using present(2,3,4) P by (rule report_matched)
    with assms(2) addr show ?thesis
      unfolding present(1) by (simp add: and_then_def present(2,3,4))
  qed
qed

lemma scan_past_non_matches:
  assumes "\<forall>r\<in>set pre. address_shape r \<and> \<not> str_contains TARGET (address_text r)"
  shows "scan R (pre @ rest) = scan R rest"
  using assms
proof (induction pre)
  case Nil
  then show ?case by simp
next
  case (Cons r pre)
  then have "scan R ((r # pre) @ rest) = scan R (pre @ rest)"
    by (simp add: scan_non_match del: scan.simps)
  with Cons show ?case by simp
qed

lemma handle_payload_data:
  assumes "data_array payload = Some items"
  shows "handle_payload R payload = scan R items"
proof -
  from assms obtain kvs where "payload = PDict kvs"
    and "map_of kvs (ustr ''data'') = Some (PList items)"
    by (cases payload)
       (auto simp: data_array_def split: option.splits pyval.splits)
  then show ?thesis by (simp add: handle_payload_def and_then_def)
qed

lemma main_outcome:
  assumes "load_dotenv fs (ustr ''.env'') env = (env', None)"
  shows "snd (main R fs env urlopen) =
           (case urlopen (build_request env') of
              Parsed payload \<Rightarrow> handle_payload R payload
            | HTTPError err \<Rightarrow> handle_http_error R err
            | Failed e \<Rightarrow> fail e start)"
  using assms by (simp add: main_def)

lemma report_printed:
  assumes "\<forall>lv\<in>set (reported m). printable R (snd lv)"
  shows "print_each R (statements (reported m)) start =
           \<lparr>stdout = concat (map (line_text R) (reported m)), raised = None\<rparr>"
proof -
  have "raised start = None" by (simp add: start_def)
  moreover have "\<forall>lv\<in>set (reported m). writable (fst lv) \<and> printable R (snd lv)"
    using assms reported_labels by blast
  ultimately have "print_each R (statements (reported m)) start =
      start\<lparr>stdout := stdout start @ concat (map (line_text R) (reported m))\<rparr>"
    by (rule print_each_ok)
  then show ?thesis by (simp add: start_def)
qed



lemma load_no_files: "load_dotenv no_files path env = (env, None)"
  by (simp add: load_dotenv_def no_files_def)

lemma server_answer: "server answer req = answer"
  by (simp add: server_def)


lemma with_address_shape: "address_shape (with_address a)"
  by (simp add: address_shape_def with_address_def opt_attr_def is_str_def)

lemma with_address_record: "listing_record (with_address a)"
  by (simp add: listing_record_def with_address_shape)
     (simp add: with_address_def opt_attr_def ustr_eq_iff)

lemma with_address_text: "address_text (with_address a) = a"
  by (simp add: address_text_def ADDRESS_PATH_def with_address_def)

lemma with_address_reported:
  "reported (with_address a) =
     [(ustr ''listingId'', PNone), (ustr ''price'', PNone), (ustr ''beds'', PNone),
      (ustr ''baths'', PNone), (ustr ''sqft'', PNone), (ustr ''fullAddress'', PStr a)]"
  by (simp add: reported_def REPORTED_def with_address_text)
     (simp add: field_def with_address_def ustr_eq_iff)

lemma empty_record_shape: "address_shape (PDict [])"
  by (simp add: address_shape_def opt_attr_def)

lemma empty_record_text: "address_text (PDict []) = []"
  by (simp add: address_text_def ADDRESS_PATH_def)

lemma example_record_shape: "listing_record example_record"
  by (simp add: listing_record_def address_shape_def example_record_def opt_attr_def
        is_str_def is_dict_def ustr_eq_iff)

lemma example_record_text: "address_text example_record = ustr ''53 Bridge Street, Rome, NY 13440''"
  by (simp add: address_text_def ADDRESS_PATH_def example_record_def ustr_eq_iff)

lemma example_record_reported:
  "reported example_record =
     [(ustr ''listingId'', PInt 42), (ustr ''price'', PInt 250000), (ustr ''beds'', PInt 3),
      (ustr ''baths'', PInt 2), (ustr ''sqft'', PInt 1500),
      (ustr ''fullAddress'', PStr (ustr ''53 Bridge Street, Rome, NY 13440''))]"
  by (simp add: reported_def REPORTED_def example_record_text)
     (simp add: field_def example_record_def ustr_eq_iff)

lemma example_record_printable: "\<forall>lv\<in>set (reported example_record). printable R (snd lv)"
  by (simp add: example_record_reported printable_int printable_str writable_ustr)

lemma example_record_lines:
  "concat (map (line_text R) (reported example_record)) =
     concat (map (\<lambda>l. ustr l @ [10])
       [''listingId 42'', ''price 250000'', ''beds 3'', ''baths 2'', ''sqft 1500'',
        ''fullAddress 53 Bridge Street, Rome, NY 13440''])"
  by (simp add: example_record_reported line_text_def text_of_def str_int_def digits.simps)
     (simp add: ustr_def)

lemma target_in_rome: "str_contains TARGET (ustr ''53 Bridge Street, Rome, NY 13440'')"
  by (simp add: TARGET_def ustr_def)

lemma target_not_in_main_street: "\<not> str_contains TARGET (ustr ''12 Main Street, Rome, NY 13440'')"
  by (simp add: TARGET_def ustr_def)










lemma example_data: "data_array example_payload = Some ([] @ example_record # [])"
  by (simp add: data_array_def example_payload_def)

text \<open>
  Claim C4: for the payload of the end-to-end example, the output of \<open>main\<close> is exactly
  the six lines \<open>listingId 42\<close>, \<open>price 250000\<close>, \<open>beds 3\<close>, \<open>baths 2\<close>, \<open>sqft 1500\<close> and
  \<open>fullAddress 53 Bridge Street, Rome, NY 13440\<close>, in that order.
\<close>

theorem C4_end_to_end_example:
  assumes "load_dotenv fs (ustr ''.env'') env = (env', None)"
    and "urlopen (build_request env') = Parsed example_payload"
  shows "stdout (snd (main R fs env urlopen)) =
           concat (map (\<lambda>l. ustr l @ [10])
             [''listingId 42'', ''price 250000'', ''beds 3'', ''baths 2'', ''sqft 1500'',
              ''fullAddress 53 Bridge Street, Rome, NY 13440'']) \<and>
         raised (snd (main R fs env urlopen)) = None"
proof -
  have "snd (main R fs env urlopen) = scan R [example_record]"
    using assms example_data by (simp add: main_outcome handle_payload_data)
  also have "\<dots> = print_each R (statements (reported example_record)) start"
    by (simp add: scan_match example_record_shape example_record_text target_in_rome
          del: scan.simps)
  also have "\<dots> = \<lparr>stdout = concat (map (line_text R) (reported example_record)),
                     raised = None\<rparr>"
    by (simp add: report_printed example_record_printable)
  finally show ?thesis by (simp only: example_record_lines run.simps)
qed

theorem C4_end_to_end_example_witness:
  "stdout (snd (main no_repr example_fs example_env (server (Parsed example_payload)))) =
     concat (map (\<lambda>l. ustr l @ [10])
       [''listingId 42'', ''price 250000'', ''beds 3'', ''baths 2'', ''sqft 1500'',
        ''fullAddress 53 Bridge Street, Rome, NY 13440'']) \<and>
   raised (snd (main no_repr example_fs example_env (server (Parsed example_payload)))) = None"
proof -
  obtain env' where load: "load_dotenv example_fs (ustr ''.env'') example_env = (env', None)"
    by (simp add: load_dotenv_def example_fs_def example_lines_def process_line_def Let_def
          strip_def is_space_def split1_def EQUALS_def ustr_def environ_setdefault_def
          environ_setitem_def example_env_def)
  show ?thesis
    by (rule C4_end_to_end_example [where R = no_repr and fs = example_fs
          and env = example_env and env' = env'
          and urlopen = "server (Parsed example_payload)", OF load server_answer])
qed

text \<open>
  Claim C5: when no record of the data array has a nested address string that
  contains the target, \<open>main\<close> prints the line \<open>not found\<close> and nothing else.
\<close>

theorem C5_not_found:
  assumes "load_dotenv fs (ustr ''.env'') env = (env', None)"
    and "urlopen (build_request env') = Parsed payload"
    and "data_array payload = Some items"
    and "\<forall>r\<in>set items. address_shape r \<and> \<not> str_contains TARGET (address_text r)"
  shows "snd (main R fs env urlopen) =
           \<lparr>stdout = ustr ''not found'' @ [10], raised = None\<rparr>"
proof -
  have "snd (main R fs env urlopen) = scan R (items @ [])"
    using assms(1,2,3) by (simp add: main_outcome handle_payload_data)
  also have "\<dots> = scan R []"
    using assms(4) by (rule scan_past_non_matches)
  finally show ?thesis by (simp only: scan_empty)
qed

theorem C5_not_found_witness:
  "snd (main no_repr no_files Map.empty
          (server (Parsed (PDict [(ustr ''data'',
             PList [address_only ''12 Main Street, Rome, NY 13440'', PDict []])])))) =
     \<lparr>stdout = ustr ''not found'' @ [10], raised = None\<rparr>"
proof -
  let ?items = "[address_only ''12 Main Street, Rome, NY 13440'', PDict []]"
  let ?payload = "PDict [(ustr ''data'', PList ?items)]"
  have d: "data_array ?payload = Some ?items"
    by (simp add: data_array_def)
  have n: "\<forall>r\<in>set ?items. address_shape r \<and> \<not> str_contains TARGET (address_text r)"
    by (simp add: address_only_def with_address_shape with_address_text
          target_not_in_main_street empty_record_shape empty_record_text TARGET_nonempty)
  show ?thesis
    by (rule C5_not_found [where R = no_repr and fs = no_files and env = Map.empty
          and env' = Map.empty and urlopen = "server (Parsed ?payload)"
          and payload = ?payload and items = ?items, OF load_no_files server_answer d n])
qed





text \<open>
  Claim C7: a nested attribute that is absent never makes the scan of a record raise.
  A record whose address is absent at any level has the empty address string and is
  passed over. The report of a matching record is the six \<open>print\<close> statements on its
  values, \<open>None\<close> standing for every field that is absent: no lookup raises. The
  statement that prints an absent field writes \<open>label None\<close> and raises nothing. So
  when the values that are present can be printed, the report raises nothing and has
  the line \<open>label None\<close> for each absent field.
\<close>

theorem C7_absent_attributes:
  assumes "listing_record r"
  shows "(lookup_path ADDRESS_PATH r = None \<longrightarrow>
            address_text r = [] \<and> scan R (r # rest) = scan R rest) \<and>
         (\<not> str_contains TARGET (address_text r) \<longrightarrow> scan R (r # rest) = scan R rest) \<and>
         (str_contains TARGET (address_text r) \<longrightarrow>
            scan R (r # rest) = print_each R (statements (reported r)) start) \<and>
         (\<forall>lp\<in>set REPORTED. lookup_path (snd lp) r = None \<longrightarrow>
            (fst lp, PNone) \<in> set (reported r) \<and>
            (\<forall>out. raised out = None \<longrightarrow>
               print_field R (fst lp) (Inr PNone) out =
                 out\<lparr>stdout := stdout out @ fst lp @ ustr '' None'' @ [10]\<rparr>)) \<and>
         (str_contains TARGET (address_text r) \<and>
          (\<forall>lv\<in>set (reported r). snd lv \<noteq> PNone \<longrightarrow> printable R (snd lv)) \<longrightarrow>
            scan R (r # rest) =
              \<lparr>stdout = concat (map (line_text R) (reported r)), raised = None\<rparr>)"
proof (intro conjI impI ballI allI)
  from assms have shape: "address_shape r" by (simp add: listing_record_def)
  {
    assume "lookup_path ADDRESS_PATH r = None"
    then show "address_text r = []"
      by (simp add: address_text_def)
    with shape show "scan R (r # rest) = scan R rest"
      by (simp add: scan_non_match TARGET_nonempty del: scan.simps)
  }
  {
    assume "\<not> str_contains TARGET (address_text r)"
    with shape show "scan R (r # rest) = scan R rest"
      by (rule scan_non_match)
  }
  {
    assume "str_contains TARGET (address_text r)"
    with assms show "scan R (r # rest) = print_each R (statements (reported r)) start"
      by (rule scan_match)
  }
  {
    fix lp
    assume lp: "lp \<in> set REPORTED" and absent: "lookup_path (snd lp) r = None"
    from lp have "(fst lp, field (snd lp) r) \<in> set (reported r)"
      by (auto simp: reported_def)
    with absent show "(fst lp, PNone) \<in> set (reported r)"
      by (simp add: field_def)
    fix out :: run
    assume ok: "raised out = None"
    from lp have "writable (fst lp)"
      by (auto simp: REPORTED_def writable_ustr)
    with ok have "print_field R (fst lp) (Inr PNone) out =
                    out\<lparr>stdout := stdout out @ line_text R (fst lp, PNone)\<rparr>"
      by (simp add: print_field_ok printable_None)
    then show "print_field R (fst lp) (Inr PNone) out =
                 out\<lparr>stdout := stdout out @ fst lp @ ustr '' None'' @ [10]\<rparr>"
      by (simp add: line_text_def text_of_def ustr_def)
  }
  {
    assume h: "str_contains TARGET (address_text r) \<and>
               (\<forall>lv\<in>set (reported r). snd lv \<noteq> PNone \<longrightarrow> printable R (snd lv))"
    then have "\<forall>lv\<in>set (reported r). printable R (snd lv)"
      using printable_None by metis
    with h assms show "scan R (r # rest) =
        \<lparr>stdout = concat (map (line_text R) (reported r)), raised = None\<rparr>"
      by (simp add: scan_match report_printed del: scan.simps)
  }
qed

theorem C7_absent_attributes_witness:
  "scan no_repr [PDict [], address_only ''53 Bridge Street''] =
     scan no_repr [address_only ''53 Bridge Street''] \<and>
   scan no_repr [address_only ''53 Bridge Street''] =
     \<lparr>stdout =
        concat (map (\<lambda>l. ustr l @ [10])
          [''listingId None'', ''price None'', ''beds None'', ''baths None'', ''sqft None'',
           ''fullAddress 53 Bridge Street'']),
      raised = None\<rparr> \<and>
   print_field no_repr (ustr ''beds'') (Inr PNone) start =
     \<lparr>stdout = ustr ''beds None'' @ [10], raised = None\<rparr>"
proof -
  let ?m = "address_only ''53 Bridge Street''"
  let ?beds = "(ustr ''beds'', [ustr ''listing'', ustr ''property'', ustr ''bedroomsTotal''])"
  have e: "listing_record (PDict [])"
    by (simp add: listing_record_def address_shape_def opt_attr_def)
  have a: "lookup_path ADDRESS_PATH (PDict []) = None"
    by (simp add: ADDRESS_PATH_def)
  have m: "listing_record ?m"
    by (simp add: address_only_def with_address_record)
  have t: "str_contains TARGET (address_text ?m)"
    by (simp add: address_only_def with_address_text) (simp add: TARGET_def ustr_def)
  have rep: "reported ?m =
     [(ustr ''listingId'', PNone), (ustr ''price'', PNone), (ustr ''beds'', PNone),
      (ustr ''baths'', PNone), (ustr ''sqft'', PNone),
      (ustr ''fullAddress'', PStr (ustr ''53 Bridge Street''))]"
    by (simp add: address_only_def with_address_reported)
  have p: "\<forall>lv\<in>set (reported ?m). snd lv \<noteq> PNone \<longrightarrow> printable no_repr (snd lv)"
    by (simp add: rep printable_str writable_ustr)
  have b: "?beds \<in> set REPORTED"
    by (simp add: REPORTED_def)
  have n: "lookup_path (snd ?beds) ?m = None"
    by (simp add: address_only_def with_address_def ustr_eq_iff)
  have texts: "concat (map (line_text no_repr) (reported ?m)) =
     concat (map (\<lambda>l. ustr l @ [10])
       [''listingId None'', ''price None'', ''beds None'', ''baths None'', ''sqft None'',
        ''fullAddress 53 Bridge Street''])"
    by (simp add: rep line_text_def text_of_def) (simp add: ustr_def)
  note E = C7_absent_attributes [OF e, where R = no_repr and rest = "[?m]"]
  note M = C7_absent_attributes [OF m, where R = no_repr and rest = "[]"]
  from E a have 1: "scan no_repr [PDict [], ?m] = scan no_repr [?m]"
    by blast
  from M t p have "scan no_repr [?m] =
      \<lparr>stdout = concat (map (line_text no_repr) (reported ?m)), raised = None\<rparr>"
    by blast
  then have 2: "scan no_repr [?m] =
     \<lparr>stdout =
        concat (map (\<lambda>l. ustr l @ [10])
          [''listingId None'', ''price None'', ''beds None'', ''baths None'', ''sqft None'',
           ''fullAddress 53 Bridge Street'']),
      raised = None\<rparr>"
    by (simp only: texts)
  from M b n have "\<forall>out. raised out = None \<longrightarrow>
      print_field no_repr (fst ?beds) (Inr PNone) out =
        out\<lparr>stdout := stdout out @ fst ?beds @ ustr '' None'' @ [10]\<rparr>"
    by blast
  then have "print_field no_repr (ustr ''beds'') (Inr PNone) start =
      start\<lparr>stdout := stdout start @ ustr ''beds'' @ ustr '' None'' @ [10]\<rparr>"
    by (simp add: start_def)
  then have 3: "print_field no_repr (ustr ''beds'') (Inr PNone) start =
     \<lparr>stdout = ustr ''beds None'' @ [10], raised = None\<rparr>"
    by (simp add: start_def ustr_def)
  from 1 2 3 show ?thesis by blast
qed


section \<open>The decoder\<close>

lemma utf8_step_prefix:
  assumes "utf8_step (b # bs) = Decoded cp n"
  shows "1 \<le> n \<and> n \<le> length (b # bs) \<and> utf8_step (take n (b # bs) @ ys) = Decoded cp n"
  using assms
  by (auto split: if_splits list.splits)

lemma utf8_from_skip_all:
  assumes "length xs = k"
  shows "utf8_from m k (xs @ ys) = utf8_from m 0 ys"
  using assms
proof (induction xs arbitrary: k)
  case Nil
  then show ?case by simp
next
  case (Cons x xs)
  then obtain k' where "k = Suc k'" and "length xs = k'" by (cases k) auto
  with Cons.IH show ?case by simp
qed

lemma utf8_ignore_total: "\<exists>s. utf8_from Ignore k bs = Inr s"
proof (induction bs arbitrary: k)
  case Nil
  then show ?case by simp
next
  case (Cons b bs)
  show ?case
  proof (cases k)
    case 0
    show ?thesis
    proof (cases "utf8_step (b # bs)")
      case (Decoded cp n)
      from Cons.IH [of "n - 1"] obtain s where "utf8_from Ignore (n - 1) bs = Inr s" ..
      with 0 Decoded show ?thesis by simp
    next
      case (Invalid n)
      from Cons.IH [of "n - 1"] obtain s where "utf8_from Ignore (n - 1) bs = Inr s" ..
      with 0 Invalid show ?thesis by simp
    qed
  next
    case (Suc k')
    with Cons.IH [of k'] show ?thesis by simp
  qed
qed

lemma utf8_strict_ignore:
  assumes "utf8_from Strict k bs = Inr t"
  shows "utf8_from Ignore k bs = Inr t"
  using assms
proof (induction bs arbitrary: k t)
  case Nil
  then show ?case by simp
next
  case (Cons b bs)
  show ?case
  proof (cases k)
    case 0
    show ?thesis
    proof (cases "utf8_step (b # bs)")
      case (Decoded cp n)
      with Cons.prems 0 obtain t' where t': "utf8_from Strict (n - 1) bs = Inr t'" and "t = cp # t'"
        by (auto split: sum.splits)
      with Cons.IH [OF t'] 0 Decoded show ?thesis by simp
    next
      case (Invalid n)
      with Cons.prems 0 show ?thesis by simp
    qed
  next
    case (Suc k')
    with Cons.IH [of k' t] Cons.prems show ?thesis by simp
  qed
qed

lemma subseq_of_drop:
  assumes "subseq xs (drop k ys)"
  shows "subseq xs ys"
proof -
  have "subseq (drop k ys) ys"
    by (metis append_take_drop_id list_emb_append2 subseq_order.order_refl)
  with assms show ?thesis by (rule subseq_order.order_trans)
qed

lemma utf8_ignore_drops:
  assumes "utf8_from Ignore k bs = Inr s"
  shows "\<exists>kept. subseq kept (drop k bs) \<and> utf8_from Strict 0 kept = Inr s"
  using assms
proof (induction bs arbitrary: k s)
  case Nil
  then show ?case by (auto intro: exI [of _ "[]"])
next
  case (Cons b bs)
  show ?case
  proof (cases k)
    case (Suc k')
    with Cons.IH [of k' s] Cons.prems show ?thesis by simp
  next
    case 0
    show ?thesis
    proof (cases "utf8_step (b # bs)")
      case (Invalid n)
      with Cons.prems 0 have "utf8_from Ignore (n - 1) bs = Inr s" by simp
      from Cons.IH [OF this] obtain kept
        where k1: "subseq kept (drop (n - 1) bs)" and k2: "utf8_from Strict 0 kept = Inr s"
        by blast
      from k1 have "subseq kept bs" by (rule subseq_of_drop)
      then have "subseq kept (b # bs)" by (rule list_emb_Cons)
      with k2 0 show ?thesis by auto
    next
      case (Decoded cp n)
      with Cons.prems 0 obtain s' where s': "utf8_from Ignore (n - 1) bs = Inr s'"
        and s: "s = cp # s'"
        by (auto split: sum.splits)
      from Cons.IH [OF s'] obtain kept
        where k1: "subseq kept (drop (n - 1) bs)" and k2: "utf8_from Strict 0 kept = Inr s'"
        by blast
      from utf8_step_prefix [OF Decoded, of kept]
      have n1: "1 \<le> n" and n2: "n \<le> length (b # bs)"
        and st: "utf8_step (take n (b # bs) @ kept) = Decoded cp n" by simp_all
      let ?seq = "take n (b # bs)"
      from n1 have tk: "?seq = b # take (n - 1) bs" by (cases n) simp_all
      from n1 have dr: "drop n (b # bs) = drop (n - 1) bs" by (cases n) simp_all
      have len: "length (take (n - 1) bs) = n - 1" using n1 n2 by simp
      have "utf8_from Strict 0 (?seq @ kept) = Inr s"
        using st k2 utf8_from_skip_all [OF len, of Strict kept] by (simp add: tk s)
      moreover have "subseq (?seq @ kept) (?seq @ drop n (b # bs))"
        using k1 dr by (auto intro: list_emb_append_mono)
      then have "subseq (?seq @ kept) (b # bs)" by simp
      ultimately show ?thesis using 0 by auto
    qed
  qed
qed

lemma subseq_of_map:
  assumes "subseq xs (map f ys)"
  shows "\<exists>zs. subseq zs ys \<and> xs = map f zs"
proof -
  from assms obtain N where "xs = nths (map f ys) N"
    by (auto simp: subseq_conv_nths)
  then have "xs = map f (nths ys N)" by (simp add: nths_map)
  moreover have "subseq (nths ys N) ys" by (auto simp: subseq_conv_nths)
  ultimately show ?thesis by blast
qed

lemma bytes_decode_ignore:
  "\<exists>body kept. bytes_decode Ignore bs = Inr body \<and> subseq kept bs \<and>
     bytes_decode Strict kept = Inr body"
proof -
  obtain body where body: "utf8_from Ignore 0 (map unat bs) = Inr body"
    using utf8_ignore_total by blast
  from utf8_ignore_drops [OF body] obtain ks
    where "subseq ks (map unat bs)" and ks: "utf8_from Strict 0 ks = Inr body"
    by auto
  then obtain kept where "subseq kept bs" and "ks = map unat kept"
    by (auto dest: subseq_of_map)
  with body ks show ?thesis by (auto simp: bytes_decode_def)
qed

lemma bytes_decode_valid:
  assumes "bytes_decode Strict bs = Inr t"
  shows "bytes_decode Ignore bs = Inr t"
  using assms by (simp add: bytes_decode_def utf8_strict_ignore)

lemma three_byte_scalar:
  fixes a x y :: nat
  assumes "224 \<le> a" and "128 \<le> x" and "128 \<le> y" and "y < 192"
    and "(x < 160 \<and> a \<noteq> 224) \<or> (160 \<le> x \<and> x < 192 \<and> a \<noteq> 237)"
  shows "(a - 224) * 4096 + (x - 128) * 64 + (y - 128) < 55296 \<or>
         57343 < (a - 224) * 4096 + (x - 128) * 64 + (y - 128)"
proof -
  obtain a' x' y' where d: "a = 224 + a'" "x = 128 + x'" "y = 128 + y'"
    using assms(1,2,3) by (metis le_iff_add)
  have y': "y' < 64" using assms(4) d by simp
  from assms(5) d have "(x' < 32) \<or> (32 \<le> x' \<and> x' < 64 \<and> a' \<noteq> 13)" by auto
  then have "a' * 4096 + x' * 64 + y' < 55296 \<or> 57343 < a' * 4096 + x' * 64 + y'"
    using y' by (cases "a' \<le> 12"; cases "14 \<le> a'") auto
  then show ?thesis by (simp add: d)
qed

lemma utf8_step_scalar:
  assumes "utf8_step bs = Decoded cp n"
  shows "\<not> surrogate cp"
proof (cases bs)
  case Nil
  with assms show ?thesis by simp
next
  case (Cons ch rest)
  consider "ch < 128" | "128 \<le> ch" "ch < 224" | "224 \<le> ch" "ch < 240" | "240 \<le> ch"
    by linarith
  then show ?thesis
  proof cases
    case 1
    with assms Cons show ?thesis by (auto simp: surrogate_def)
  next
    case 2
    with assms Cons show ?thesis
      by (auto simp: surrogate_def is_cont_def split: if_splits list.splits)
  next
    case 3
    with assms Cons obtain x y others where "rest = x # y # others"
      and cx: "is_cont x" and cy: "is_cont y"
      and ok: "\<not> (if x < 160 then ch = 224 else ch = 237)"
      and cp: "cp = (ch - 224) * 4096 + (x - 128) * 64 + (y - 128)"
      by (auto split: if_splits list.splits)
    from cx cy ok have "128 \<le> x" "128 \<le> y" "y < 192"
      "(x < 160 \<and> ch \<noteq> 224) \<or> (160 \<le> x \<and> x < 192 \<and> ch \<noteq> 237)"
      by (auto simp: is_cont_def split: if_splits)
    with 3 have "(ch - 224) * 4096 + (x - 128) * 64 + (y - 128) < 55296 \<or>
          57343 < (ch - 224) * 4096 + (x - 128) * 64 + (y - 128)"
      by (intro three_byte_scalar)
    then show ?thesis by (auto simp: surrogate_def cp)
  next
    case 4
    with assms Cons obtain x y z others where "rest = x # y # z # others"
      and cx: "is_cont x"
      and ok: "\<not> (if x < 144 then ch = 240 else ch = 244)"
      and cp: "cp = (ch - 240) * 262144 + (x - 128) * 4096 + (y - 128) * 64 + (z - 128)"
      by (auto split: if_splits list.splits)
    have "65536 \<le> cp"
    proof (cases "ch = 240")
      case True
      with ok cx have "144 \<le> x" by (auto split: if_splits)
      then have "16 * 4096 \<le> (x - 128) * 4096" by simp
      then show ?thesis by (simp add: cp)
    next
      case False
      with 4 have "1 \<le> ch - 240" by simp
      then have "1 * 262144 \<le> (ch - 240) * 262144" by (rule mult_le_mono1)
      then show ?thesis by (simp add: cp)
    qed
    then show ?thesis by (simp add: surrogate_def)
  qed
qed

lemma utf8_from_writable:
  assumes "utf8_from m k bs = Inr s"
  shows "writable s"
  using assms
proof (induction bs arbitrary: k s)
  case Nil
  then show ?case by (simp add: writable_Nil)
next
  case (Cons b bs)
  show ?case
  proof (cases k)
    case (Suc k')
    with Cons.IH [of k' s] Cons.prems show ?thesis by simp
  next
    case 0
    show ?thesis
    proof (cases "utf8_step (b # bs)")
      case (Invalid n)
      with Cons.prems 0 have "utf8_from m (n - 1) bs = Inr s"
        by (cases m) simp_all
      then show ?thesis by (rule Cons.IH)
    next
      case (Decoded cp n)
      with Cons.prems 0 obtain s' where s': "utf8_from m (n - 1) bs = Inr s'"
        and s: "s = cp # s'"
        by (auto split: sum.splits)
      from s' have "writable s'" by (rule Cons.IH)
      moreover from Decoded have "\<not> surrogate cp" by (rule utf8_step_scalar)
      ultimately show ?thesis by (simp add: s writable_Cons)
    qed
  qed
qed

lemma bytes_decode_writable:
  assumes "bytes_decode m bs = Inr s"
  shows "writable s"
  using assms by (auto simp: bytes_decode_def dest: utf8_from_writable)

lemma http_error_run:
  assumes "bytes_decode Ignore (err_body err) = Inr body"
  shows "handle_http_error R err =
           \<lparr>stdout =
              ustr ''HTTP error '' @ str_int (err_code err) @ 32 #
              latin1_decode (err_reason err) @ [10] @ body @ [10],
            raised = None\<rparr>"
proof -
  have w: "writable (ustr ''HTTP error'')" "writable (str_int (err_code err))"
    "writable (latin1_decode (err_reason err))" "writable body" "writable [32]" "writable [10]"
    using assms
    by (simp_all add: writable_ustr writable_str_int writable_latin1 bytes_decode_writable
          writable_Cons writable_Nil surrogate_def)
  have "ustr ''HTTP error '' = ustr ''HTTP error'' @ [32]"
    by (simp add: ustr_def)
  with w assms show ?thesis
    by (simp add: handle_http_error_def Let_def py_print_def write_object_def stdout_write_def
          start_def)
qed

text \<open>
  Claim C3: when \<open>urlopen\<close> raises \<open>HTTPError\<close> (a status that is not 2xx), \<open>main\<close> prints
  one line with the status code and the reason phrase, then the body of the response,
  and returns: nothing else is printed, no record is looked at, nothing is raised.
  The body is decoded leniently: decoding never fails, the text is the strict decoding
  of the bytes that are left when the undecodable ones are dropped, and a body that is
  valid UTF-8 is printed as it is.
\<close>

theorem C3_http_error_report:
  assumes "load_dotenv fs (ustr ''.env'') env = (env', None)"
    and "urlopen (build_request env') = HTTPError err"
  shows "\<exists>body kept.
           snd (main R fs env urlopen) =
             \<lparr>stdout =
                ustr ''HTTP error '' @ str_int (err_code err) @ 32 #
                latin1_decode (err_reason err) @ [10] @ body @ [10],
              raised = None\<rparr> \<and>
           bytes_decode Ignore (err_body err) = Inr body \<and>
           subseq kept (err_body err) \<and> bytes_decode Strict kept = Inr body \<and>
           (\<forall>t. bytes_decode Strict (err_body err) = Inr t \<longrightarrow> body = t)"
proof -
  from bytes_decode_ignore obtain body kept
    where b: "bytes_decode Ignore (err_body err) = Inr body"
      and k: "subseq kept (err_body err)" "bytes_decode Strict kept = Inr body"
    by blast
  have "snd (main R fs env urlopen) =
          \<lparr>stdout =
             ustr ''HTTP error '' @ str_int (err_code err) @ 32 #
             latin1_decode (err_reason err) @ [10] @ body @ [10],
           raised = None\<rparr>"
    using assms by (simp add: main_outcome http_error_run [OF b])
  moreover have "\<forall>t. bytes_decode Strict (err_body err) = Inr t \<longrightarrow> body = t"
    using b by (auto dest: bytes_decode_valid)
  ultimately show ?thesis using b k by blast
qed

theorem C3_http_error_report_witness:
  "snd (main no_repr no_files Map.empty (server (HTTPError example_error))) =
     \<lparr>stdout = ustr ''HTTP error 401 Unauthorized'' @ [10] @ ustr ''no'' @ [10],
      raised = None\<rparr> \<and>
   bytes_decode Ignore [110, 255, 111] = Inr (ustr ''no'') \<and>
   bytes_decode Strict [110, 255, 111] = Inl UnicodeDecodeError"
proof -
  have d: "bytes_decode Ignore (err_body example_error) = Inr (ustr ''no'')"
    by (simp add: example_error_def bytes_decode_def ustr_def)
  have e: "bytes_decode Strict [110, 255, 111] = Inl UnicodeDecodeError"
    by (simp add: bytes_decode_def)
  have h: "ustr ''HTTP error '' @ str_int (err_code example_error) @ 32 #
           latin1_decode (err_reason example_error) @ [10] @ ustr ''no'' @ [10] =
           ustr ''HTTP error 401 Unauthorized'' @ [10] @ ustr ''no'' @ [10]"
    by (simp add: example_error_def latin1_decode_def str_int_def digits.simps ustr_def)
  from C3_http_error_report [where fs = no_files and env = Map.empty and env' = Map.empty
      and urlopen = "server (HTTPError example_error)" and err = example_error
      and R = no_repr, OF load_no_files server_answer]
  obtain body where
    "snd (main no_repr no_files Map.empty (server (HTTPError example_error))) =
       \<lparr>stdout =
          ustr ''HTTP error '' @ str_int (err_code example_error) @ 32 #
          latin1_decode (err_reason example_error) @ [10] @ body @ [10],
        raised = None\<rparr>"
    and "bytes_decode Ignore (err_body example_error) = Inr body"
    by blast
  with d have "snd (main no_repr no_files Map.empty (server (HTTPError example_error))) =
       \<lparr>stdout =
          ustr ''HTTP error '' @ str_int (err_code example_error) @ 32 #
          latin1_decode (err_reason example_error) @ [10] @ ustr ''no'' @ [10],
        raised = None\<rparr>"
    by simp
  then have "snd (main no_repr no_files Map.empty (server (HTTPError example_error))) =
     \<lparr>stdout = ustr ''HTTP error 401 Unauthorized'' @ [10] @ ustr ''no'' @ [10],
      raised = None\<rparr>"
    by (simp only: h)
  with d e show ?thesis by (simp add: example_error_def)
qed

end
